theory Spec2Isabelle
  imports Complex_Main "HOL-Library.Sublist"
begin

section \<open>JavaScript values used by the helpers\<close>

text \<open>
  Strings are character lists. The three string methods the helpers call are the list
  notions of the library: \<open>s.startsWith(p)\<close> holds when \<open>p\<close> is a prefix of \<open>s\<close>,
  \<open>s.endsWith(p)\<close> when it is a suffix, \<open>s.includes(p)\<close> when it occurs as a contiguous
  block. \<open>s.slice(k)\<close> with \<open>0 \<le> k\<close> drops the first \<open>k\<close> characters, and \<open>+\<close> on strings is
  \<open>@\<close>. A value of type \<open>string | undefined\<close> is a \<open>string option\<close>; it is truthy
  when it is present and not empty.
\<close>

definition startsWith :: "string \<Rightarrow> string \<Rightarrow> bool" where
  "startsWith s p = prefix p s"

definition endsWith :: "string \<Rightarrow> string \<Rightarrow> bool" where
  "endsWith s p = suffix p s"

definition includes_str :: "string \<Rightarrow> string \<Rightarrow> bool" where
  "includes_str s p = sublist p s"

definition slice :: "string \<Rightarrow> nat \<Rightarrow> string" where
  "slice s k = drop k s"

definition truthy_str :: "string option \<Rightarrow> bool" where
  "truthy_str v = (case v of None \<Rightarrow> False | Some s \<Rightarrow> s \<noteq> [])"

text \<open>
  A method call on \<open>undefined\<close> throws a \<open>TypeError\<close>. Functions that call a method on a
  value that may be \<open>undefined\<close> return \<open>error + 'a\<close>, with \<open>Inl\<close> for the thrown error.
\<close>

datatype error = TypeError | Error string

definition opt_startsWith :: "string option \<Rightarrow> string \<Rightarrow> error + bool" where
  "opt_startsWith v p = (case v of None \<Rightarrow> Inl TypeError | Some s \<Rightarrow> Inr (startsWith s p))"

definition opt_endsWith :: "string option \<Rightarrow> string \<Rightarrow> error + bool" where
  "opt_endsWith v p = (case v of None \<Rightarrow> Inl TypeError | Some s \<Rightarrow> Inr (endsWith s p))"

definition opt_includes :: "string option \<Rightarrow> string \<Rightarrow> error + bool" where
  "opt_includes v p = (case v of None \<Rightarrow> Inl TypeError | Some s \<Rightarrow> Inr (includes_str s p))"

definition bind_result :: "error + 'a \<Rightarrow> ('a \<Rightarrow> error + 'b) \<Rightarrow> error + 'b" where
  "bind_result r f = (case r of Inl e \<Rightarrow> Inl e | Inr x \<Rightarrow> f x)"


section \<open>JavaScript numbers\<close>

text \<open>
  A JavaScript number is an IEEE 754 double: a real number of the form \<open>m * 2^e\<close> with
  \<open>\<bar>m\<bar> < 2^53\<close> and \<open>- 1074 \<le> e \<le> 971\<close>, or one of \<open>Infinity\<close>, \<open>-Infinity\<close>, \<open>NaN\<close>. The
  two zeros of the format are one value here (they are equal under \<open>===\<close>). Every
  arithmetic operation returns the exact result rounded to the nearest double, ties to
  the even mantissa (\<open>fl\<close>); a result that rounds to \<open>2^1024\<close> or beyond is infinite.
\<close>

datatype number = Fin real | PosInfinity | NegInfinity | NaN

text \<open>\<open>bitlen n\<close> is the number of binary digits of \<open>n\<close>.\<close>

fun bitlen :: "nat \<Rightarrow> nat" where
  "bitlen n = (if n = 0 then 0 else Suc (bitlen (n div 2)))"

declare bitlen.simps [simp del]

text \<open>For \<open>0 < a\<close>, \<open>exponent a\<close> is the integer \<open>e\<close> with \<open>2^e \<le> a < 2^(e+1)\<close>.\<close>

definition exponent :: "real \<Rightarrow> int" where
  "exponent a = (if 1 \<le> a then int (bitlen (nat \<lfloor>a\<rfloor>)) - 1
                 else - int (bitlen (nat (\<lceil>1 / a\<rceil> - 1))))"

text \<open>The nearest integer, a tie going to the even one.\<close>

definition round_even :: "real \<Rightarrow> int" where
  "round_even m = (let f = \<lfloor>m\<rfloor>; d = m - of_int f in
     if d < 1 / 2 then f else if 1 / 2 < d then f + 1 else if even f then f else f + 1)"

text \<open>
  Rounding to double precision: the spacing of the doubles around \<open>x\<close> is \<open>2^(e - 52)\<close>
  for the exponent \<open>e\<close> of \<open>\<bar>x\<bar>\<close>, and \<open>2^(- 1074)\<close> in the subnormal range.
\<close>

definition fl :: "real \<Rightarrow> number" where
  "fl x = (if x = 0 then Fin 0 else
     let a = \<bar>x\<bar>;
         q = 2 powi (max (exponent a) (- 1022) - 52);
         y = of_int (round_even (a / q)) * q
     in if 2 ^ 1024 \<le> y then (if 0 < x then PosInfinity else NegInfinity)
        else Fin (if 0 < x then y else - y))"

fun num_mul :: "number \<Rightarrow> number \<Rightarrow> number" where
  "num_mul NaN _ = NaN"
| "num_mul _ NaN = NaN"
| "num_mul (Fin x) (Fin y) = fl (x * y)"
| "num_mul (Fin x) PosInfinity = (if x = 0 then NaN else if 0 < x then PosInfinity else NegInfinity)"
| "num_mul (Fin x) NegInfinity = (if x = 0 then NaN else if 0 < x then NegInfinity else PosInfinity)"
| "num_mul PosInfinity (Fin y) = (if y = 0 then NaN else if 0 < y then PosInfinity else NegInfinity)"
| "num_mul NegInfinity (Fin y) = (if y = 0 then NaN else if 0 < y then NegInfinity else PosInfinity)"
| "num_mul PosInfinity PosInfinity = PosInfinity"
| "num_mul PosInfinity NegInfinity = NegInfinity"
| "num_mul NegInfinity PosInfinity = NegInfinity"
| "num_mul NegInfinity NegInfinity = PosInfinity"

fun num_add :: "number \<Rightarrow> number \<Rightarrow> number" where
  "num_add NaN _ = NaN"
| "num_add _ NaN = NaN"
| "num_add (Fin x) (Fin y) = fl (x + y)"
| "num_add PosInfinity NegInfinity = NaN"
| "num_add NegInfinity PosInfinity = NaN"
| "num_add PosInfinity _ = PosInfinity"
| "num_add NegInfinity _ = NegInfinity"
| "num_add _ PosInfinity = PosInfinity"
| "num_add _ NegInfinity = NegInfinity"

text \<open>Division; a zero divisor is the positive zero.\<close>

fun num_div :: "number \<Rightarrow> number \<Rightarrow> number" where
  "num_div NaN _ = NaN"
| "num_div _ NaN = NaN"
| "num_div (Fin x) (Fin y) =
     (if y = 0 then (if x = 0 then NaN else if 0 < x then PosInfinity else NegInfinity)
      else fl (x / y))"
| "num_div (Fin x) PosInfinity = Fin 0"
| "num_div (Fin x) NegInfinity = Fin 0"
| "num_div PosInfinity (Fin y) = (if 0 \<le> y then PosInfinity else NegInfinity)"
| "num_div NegInfinity (Fin y) = (if 0 \<le> y then NegInfinity else PosInfinity)"
| "num_div PosInfinity PosInfinity = NaN"
| "num_div PosInfinity NegInfinity = NaN"
| "num_div NegInfinity PosInfinity = NaN"
| "num_div NegInfinity NegInfinity = NaN"

text \<open>\<open>a >= b\<close>: false as soon as one side is \<open>NaN\<close>.\<close>

fun num_ge :: "number \<Rightarrow> number \<Rightarrow> bool" where
  "num_ge NaN _ = False"
| "num_ge _ NaN = False"
| "num_ge (Fin x) (Fin y) = (y \<le> x)"
| "num_ge PosInfinity _ = True"
| "num_ge _ NegInfinity = True"
| "num_ge (Fin x) PosInfinity = False"
| "num_ge NegInfinity _ = False"

text \<open>
  \<open>Math.round\<close>: the nearest integer, a tie going up. It changes no double of magnitude
  \<open>2^52\<close> or more, and below that its result is an integer that is a double.
\<close>

fun Math_round :: "number \<Rightarrow> number" where
  "Math_round (Fin x) = Fin (of_int \<lfloor>x + 1 / 2\<rfloor>)"
| "Math_round v = v"


section \<open>Unit conversion (utils/unitConverter.ts)\<close>

definition MICROALGOS_PER_ALGO :: number where
  "MICROALGOS_PER_ALGO = Fin 1000000"

text \<open>
  \<open>algoToMicroAlgo\<close> is a single \<open>return\<close> of an arithmetic expression; no statement of it
  throws. Its result type has the error case so that this can be stated.
\<close>

definition algoToMicroAlgo :: "number \<Rightarrow> error + number" where
  "algoToMicroAlgo algo = Inr (Math_round (num_mul algo MICROALGOS_PER_ALGO))"

definition microAlgoToAlgo :: "number \<Rightarrow> number" where
  "microAlgoToAlgo microAlgo = num_div microAlgo MICROALGOS_PER_ALGO"

text \<open>
  \<open>verifySignature\<close> wraps \<open>algosdk.verifyBytes\<close>, which is not among the sources and is a
  parameter here: a function that returns a boolean or throws.
\<close>

type_synonym bytes = "nat list"

definition verifySignature ::
  "(bytes \<Rightarrow> bytes \<Rightarrow> string \<Rightarrow> error + bool) \<Rightarrow> bytes \<Rightarrow> bytes \<Rightarrow> string \<Rightarrow> error + bool" where
  "verifySignature verifyBytes data signature address =
     (case verifyBytes data signature address of Inl e \<Rightarrow> Inr False | Inr b \<Rightarrow> Inr b)"

text \<open>
  \<open>isValidAddress\<close> returns what \<open>algosdk.isValidAddress\<close> returns. The SDK is bundled with
  the node and is not among the sources; the next definitions stand for it.
\<close>

text \<open>
  Modelled from the spec: the base32 decoding inside \<open>algosdk.isValidAddress\<close> (the SDK is
  absent). The alphabet is the standard one, each character stands for five bits, the
  bits are read as bytes from the front, and the bits left over at the end are dropped.
  A character outside the alphabet is a decoding failure.
\<close>

definition base32_alphabet :: string where
  "base32_alphabet = ''ABCDEFGHIJKLMNOPQRSTUVWXYZ234567''"

definition base32_value :: "char \<Rightarrow> nat option" where
  "base32_value c = map_of (zip base32_alphabet [0..<32]) c"

definition bits5 :: "nat \<Rightarrow> bool list" where
  "bits5 v = [odd (v div 16), odd (v div 8), odd (v div 4), odd (v div 2), odd v]"

definition byte_of_bits :: "bool list \<Rightarrow> nat" where
  "byte_of_bits bs = foldl (\<lambda>acc b. 2 * acc + (if b then 1 else 0)) 0 bs"

fun bytes_of_bits :: "bool list \<Rightarrow> bytes" where
  "bytes_of_bits (b7 # b6 # b5 # b4 # b3 # b2 # b1 # b0 # rest) =
     byte_of_bits [b7, b6, b5, b4, b3, b2, b1, b0] # bytes_of_bits rest"
| "bytes_of_bits bs = []"

definition base32_decode :: "string \<Rightarrow> bytes option" where
  "base32_decode s =
     (case those (map base32_value s) of
        None \<Rightarrow> None
      | Some values \<Rightarrow> Some (bytes_of_bits (concat (map bits5 values))))"

text \<open>
  Modelled from the spec: \<open>algosdk.isValidAddress\<close> (absent). The address must have 58
  characters and decode; its last 4 decoded bytes are the embedded checksum, the bytes
  before them the public key; the checksum recomputed over the public key must equal the
  embedded one. A wrong length, a decoding failure and a checksum mismatch are the three
  failures, and each of them yields \<open>false\<close>. The function that computes the checksum of a
  public key is a parameter.
\<close>

datatype address_error = WrongLength | DecodingFailure | ChecksumMismatch

definition decodeAddress :: "(bytes \<Rightarrow> bytes) \<Rightarrow> string \<Rightarrow> address_error + bytes \<times> bytes" where
  "decodeAddress checksum s =
     (if length s \<noteq> 58 then Inl WrongLength
      else case base32_decode s of
             None \<Rightarrow> Inl DecodingFailure
           | Some decoded \<Rightarrow>
               (let publicKey = take (length decoded - 4) decoded;
                    embedded = drop (length decoded - 4) decoded
                in if embedded = checksum publicKey then Inr (publicKey, embedded)
                   else Inl ChecksumMismatch))"

definition algosdk_isValidAddress :: "(bytes \<Rightarrow> bytes) \<Rightarrow> string \<Rightarrow> error + bool" where
  "algosdk_isValidAddress checksum s =
     (case decodeAddress checksum s of Inl e \<Rightarrow> Inr False | Inr d \<Rightarrow> Inr True)"

definition isValidAddress :: "(bytes \<Rightarrow> bytes) \<Rightarrow> string \<Rightarrow> error + bool" where
  "isValidAddress checksum address = algosdk_isValidAddress checksum address"


section \<open>Minimum balance (utils/unitConverter.ts, constants/networks.ts)\<close>








section \<open>ARC metadata helpers (constants/arcs.ts)\<close>

datatype arc_standard = ARC3 | ARC19 | ARC69 | unknown

definition default_gateway :: string where
  "default_gateway = ''https://ipfs.io/ipfs/''"

definition ipfsToHttp :: "string \<Rightarrow> string \<Rightarrow> string" where
  "ipfsToHttp url gateway =
     (if startsWith url ''ipfs://'' then gateway @ slice url 7 else url)"

text \<open>
  \<open>detectArcStandard\<close>: both arguments may be \<open>undefined\<close>. The method calls are made on the
  arguments as they are, under the guards of the source. \<open>detect_by_name\<close> is the part after
  the block \<open>if (assetUrl) { ... }\<close>, reached when that block returns nothing.
\<close>

definition detect_by_name :: "string option \<Rightarrow> error + arc_standard" where
  "detect_by_name assetName =
     bind_result (if truthy_str assetName then opt_endsWith assetName ''@arc3'' else Inr False)
       (\<lambda>n. if n then Inr ARC3 else Inr unknown)"

definition detectArcStandard :: "string option \<Rightarrow> string option \<Rightarrow> error + arc_standard" where
  "detectArcStandard assetUrl assetName =
     (if truthy_str assetUrl then
        bind_result (opt_endsWith assetUrl ''#arc3'') (\<lambda>e.
        bind_result (if e then Inr True else opt_includes assetUrl ''arc3'') (\<lambda>m.
          if m then Inr ARC3
          else bind_result (opt_startsWith assetUrl ''template-ipfs://'') (\<lambda>t.
            if t then Inr ARC19 else detect_by_name assetName)))
      else detect_by_name assetName)"


section \<open>Algod client configuration (transport/algodClient.ts, constants/networks.ts)\<close>

record NetworkConfig =
  algodUrl :: string
  indexerUrl :: string
  genesisId :: string
  genesisHash :: string

definition ALGONODE_NETWORKS :: "(string \<times> NetworkConfig) list" where
  "ALGONODE_NETWORKS =
    [(''mainnet'', \<lparr>algodUrl = ''https://mainnet-api.algonode.cloud'',
        indexerUrl = ''https://mainnet-idx.algonode.cloud'', genesisId = ''mainnet-v1.0'',
        genesisHash = ''wGHE2Pwdvd7S12BL5FaOP20EGYesN73ktiC1qzkkit8=''\<rparr>),
     (''testnet'', \<lparr>algodUrl = ''https://testnet-api.algonode.cloud'',
        indexerUrl = ''https://testnet-idx.algonode.cloud'', genesisId = ''testnet-v1.0'',
        genesisHash = ''SGO1GKSzyE7IEPItTxCByw9x8FmnrCDexi9/cOUJOiI=''\<rparr>),
     (''betanet'', \<lparr>algodUrl = ''https://betanet-api.algonode.cloud'',
        indexerUrl = ''https://betanet-idx.algonode.cloud'', genesisId = ''betanet-v1.0'',
        genesisHash = ''mFgazF+2uRS1tMiL9dsj01hJGySEmPN28B/TjjvpVW0=''\<rparr>)]"

definition PURESTAKE_NETWORKS :: "(string \<times> NetworkConfig) list" where
  "PURESTAKE_NETWORKS =
    [(''mainnet'', \<lparr>algodUrl = ''https://mainnet-algorand.api.purestake.io/ps2'',
        indexerUrl = ''https://mainnet-algorand.api.purestake.io/idx2'', genesisId = ''mainnet-v1.0'',
        genesisHash = ''wGHE2Pwdvd7S12BL5FaOP20EGYesN73ktiC1qzkkit8=''\<rparr>),
     (''testnet'', \<lparr>algodUrl = ''https://testnet-algorand.api.purestake.io/ps2'',
        indexerUrl = ''https://testnet-algorand.api.purestake.io/idx2'', genesisId = ''testnet-v1.0'',
        genesisHash = ''SGO1GKSzyE7IEPItTxCByw9x8FmnrCDexi9/cOUJOiI=''\<rparr>),
     (''betanet'', \<lparr>algodUrl = ''https://betanet-algorand.api.purestake.io/ps2'',
        indexerUrl = ''https://betanet-algorand.api.purestake.io/idx2'', genesisId = ''betanet-v1.0'',
        genesisHash = ''mFgazF+2uRS1tMiL9dsj01hJGySEmPN28B/TjjvpVW0=''\<rparr>)]"

definition SANDBOX_CONFIG :: NetworkConfig where
  "SANDBOX_CONFIG = \<lparr>algodUrl = ''http://localhost:4001'', indexerUrl = ''http://localhost:8980'',
     genesisId = ''sandnet-v1'', genesisHash = []\<rparr>"

text \<open>
  \<open>TABLE[network] || TABLE.mainnet\<close>: the entry under the key, and the mainnet entry when
  the table has none (an absent \<open>network\<close> is the key \<open>undefined\<close>, which no table has).
  The keys are the three entries the table lists; the property names that every JavaScript
  object inherits (\<open>constructor\<close>, \<open>toString\<close>, ...) are not network names and are left out.
\<close>

definition network_or_mainnet ::
  "(string \<times> NetworkConfig) list \<Rightarrow> string option \<Rightarrow> NetworkConfig option" where
  "network_or_mainnet table network =
     (case (case network of None \<Rightarrow> None | Some n \<Rightarrow> map_of table n) of
        Some config \<Rightarrow> Some config
      | None \<Rightarrow> map_of table ''mainnet'')"

text \<open>
  The credentials are a record of named fields; each field the function reads is a
  string or absent. The token of the result is a string or the header object
  \<open>{'X-API-Key': apiKey}\<close>.
\<close>

type_synonym credentials = "string \<Rightarrow> string option"

datatype token = Token string | ApiKeyHeader "string option"

record AlgodClientConfig =
  url :: string
  token :: token

definition default_sandbox_token :: string where
  "default_sandbox_token = replicate 64 CHR ''a''"

definition getAlgodConfig :: "credentials \<Rightarrow> error + AlgodClientConfig" where
  "getAlgodConfig credentials =
     (let network = credentials ''network'';
          apiProvider = credentials ''apiProvider''
      in if apiProvider = Some ''algonode'' then
           (case network_or_mainnet ALGONODE_NETWORKS network of
              None \<Rightarrow> Inl TypeError
            | Some config \<Rightarrow> Inr \<lparr>url = algodUrl config, token = Token []\<rparr>)
         else if apiProvider = Some ''purestake'' then
           (case network_or_mainnet PURESTAKE_NETWORKS network of
              None \<Rightarrow> Inl TypeError
            | Some config \<Rightarrow>
                Inr \<lparr>url = algodUrl config, token = ApiKeyHeader (credentials ''purestakeApiKey'')\<rparr>)
         else if apiProvider = Some ''custom'' then
           (let algodToken = (case credentials ''algodToken'' of None \<Rightarrow> [] | Some t \<Rightarrow> t)
            in case credentials ''algodUrl'' of
                 None \<Rightarrow> Inl TypeError
               | Some u \<Rightarrow>
                   if includes_str u ''localhost'' \<or> includes_str u ''127.0.0.1'' then
                     Inr \<lparr>url = (if u \<noteq> [] then u else algodUrl SANDBOX_CONFIG),
                          token = Token (if algodToken \<noteq> [] then algodToken
                                         else default_sandbox_token)\<rparr>
                   else Inr \<lparr>url = u, token = Token algodToken\<rparr>)
         else
           (case map_of ALGONODE_NETWORKS ''mainnet'' of
              None \<Rightarrow> Inl TypeError
            | Some config \<Rightarrow> Inr \<lparr>url = algodUrl config, token = Token []\<rparr>))"

text \<open>
  The sibling \<open>getIndexerConfig\<close> (transport/indexerClient.ts), custom branch only: it
  tests \<open>url\<close> before it calls \<open>url.includes\<close>.
\<close>

definition getIndexerConfig_custom :: "credentials \<Rightarrow> error + string option \<times> string" where
  "getIndexerConfig_custom credentials =
     (let indexer_url = credentials ''indexerUrl'';
          indexerToken = (case credentials ''indexerToken'' of None \<Rightarrow> [] | Some t \<Rightarrow> t)
      in bind_result
           (if truthy_str indexer_url then
              bind_result (opt_includes indexer_url ''localhost'') (\<lambda>l.
                if l then Inr True else opt_includes indexer_url ''127.0.0.1'')
            else Inr False)
           (\<lambda>local. if local
              then Inr (if truthy_str indexer_url then indexer_url
                        else Some (indexerUrl SANDBOX_CONFIG), indexerToken)
              else Inr (indexer_url, indexerToken)))"


section \<open>Batch execution (Algorand.node.ts, actions/*/*.ts)\<close>

text \<open>
  An output record has a \<open>json\<close> object (a list of named values) and the index of the input
  item it comes from. A thrown error is its message, the only part the code reads.
\<close>

record INodeExecutionData =
  json :: "(string \<times> string) list"
  pairedItem :: "nat option"

definition error_record :: "string \<Rightarrow> nat \<Rightarrow> INodeExecutionData" where
  "error_record message i = \<lparr>json = [(''error'', message)], pairedItem = Some i\<rparr>"

text \<open>
  The host: the continue-on-fail flag, the \<open>resource\<close> parameter of each item, and for each
  resource the body of the \<open>try\<close> block of its handler, which returns the records it has
  pushed and the message of the error it threw, if any. The \<open>resource\<close> parameter is a fixed
  option of the node (\<open>noDataExpression\<close>), read before the \<open>try\<close> of \<open>execute\<close>; reading it
  does not fail.
\<close>

record host =
  continueOnFail :: bool
  resource_of :: "nat \<Rightarrow> string"
  try_body :: "string \<Rightarrow> nat \<Rightarrow> INodeExecutionData list \<times> string option"

definition resources :: "string list" where
  "resources = [''account'', ''transaction'', ''asa'', ''nft'', ''application'', ''block'', ''utility'']"

text \<open>
  The handlers \<open>executeAccountOperation\<close>, ..., \<open>executeUtilityOperation\<close> all end in the same
  \<open>catch\<close> block.
\<close>

definition executeOperation :: "host \<Rightarrow> string \<Rightarrow> nat \<Rightarrow> string + INodeExecutionData list" where
  "executeOperation this resource index =
     (case try_body this resource index of
        (returnData, None) \<Rightarrow> Inr returnData
      | (returnData, Some message) \<Rightarrow>
          if continueOnFail this then Inr (returnData @ [error_record message index])
          else Inl message)"

text \<open>
  The loop of \<open>execute\<close> over the item indices, with the records collected so far and the
  indices whose processing has begun.
\<close>

fun execute_items ::
  "host \<Rightarrow> nat list \<Rightarrow> INodeExecutionData list \<Rightarrow> nat list
     \<Rightarrow> (string + INodeExecutionData list) \<times> nat list" where
  "execute_items this [] returnData started = (Inr returnData, started)"
| "execute_items this (i # rest) returnData started =
     (let resource = resource_of this i;
          outcome = (if resource \<in> set resources then executeOperation this resource i
                     else Inl (''Unknown resource: '' @ resource))
      in case outcome of
           Inr result \<Rightarrow> execute_items this rest (returnData @ result) (started @ [i])
         | Inl message \<Rightarrow>
             if continueOnFail this
             then execute_items this rest (returnData @ [error_record message i]) (started @ [i])
             else (Inl message, started @ [i]))"

definition execute :: "host \<Rightarrow> nat \<Rightarrow> (string + INodeExecutionData list) \<times> nat list" where
  "execute this n = execute_items this [0..<n] [] []"

text \<open>
  What happens to one item, read off the handler body: the records it pushes, and the
  message of its failure (an unknown resource, or an error thrown in the handler).
\<close>

definition item_records :: "host \<Rightarrow> nat \<Rightarrow> INodeExecutionData list" where
  "item_records this i =
     (if resource_of this i \<in> set resources then fst (try_body this (resource_of this i) i) else [])"

definition item_failure :: "host \<Rightarrow> nat \<Rightarrow> string option" where
  "item_failure this i =
     (if resource_of this i \<in> set resources then snd (try_body this (resource_of this i) i)
      else Some (''Unknown resource: '' @ resource_of this i))"

text \<open>
  What one item contributes to the output when failures are captured: the records its
  handler pushed, followed by one error record if it failed.
\<close>

definition item_output :: "host \<Rightarrow> nat \<Rightarrow> INodeExecutionData list" where
  "item_output this i = item_records this i @
     (case item_failure this i of None \<Rightarrow> []
      | Some m \<Rightarrow> [\<lparr>json = [(''error'', m)], pairedItem = Some i\<rparr>])"


section \<open>Polling trigger (AlgorandTrigger.node.ts)\<close>

text \<open>
  The static data of the node holds the two cursors; an absent one reads as 0
  (\<open>webhookData.lastRound || 0\<close>). Rounds and balances are integers.
\<close>

record webhookData =
  lastRound :: "int option"
  lastBalance :: "int option"

definition cursor :: "webhookData \<Rightarrow> int" where
  "cursor w = (case lastRound w of None \<Rightarrow> 0 | Some r \<Rightarrow> r)"

record txn =
  tx_id :: string
  sender :: string
  payment_amount :: "int option"
  axfer :: "(string \<times> int) option"

record query =
  q_address :: "string option"
  q_addressRole :: "string option"
  q_txType :: "string option"
  q_assetID :: "int option"
  q_applicationID :: "int option"
  q_minRound :: int
  q_maxRound :: int

definition no_query :: query where
  "no_query = \<lparr>q_address = None, q_addressRole = None, q_txType = None, q_assetID = None,
     q_applicationID = None, q_minRound = 0, q_maxRound = 0\<rparr>"

text \<open>
  The answers of the node and of the indexer during one poll: each call returns or throws.
\<close>

record remote =
  status_last_round :: "error + int"
  block :: "int \<Rightarrow> error + unit"
  searchForTransactions :: "query \<Rightarrow> error + txn list"
  account_amount :: "string \<Rightarrow> error + int"

record poll_params =
  event :: string
  address :: string
  assetId :: int
  appId :: int
  minAmount :: number

datatype trigger_item = BlockItem int | TxItem string txn | BalanceItem int int

definition poll_newBlock :: "remote \<Rightarrow> webhookData \<Rightarrow> webhookData \<times> trigger_item list" where
  "poll_newBlock r w =
     (case status_last_round r of
        Inl e \<Rightarrow> (w, [])
      | Inr currentRound \<Rightarrow>
          if currentRound > cursor w then
            (w\<lparr>lastRound := Some currentRound\<rparr>,
             concat (map (\<lambda>round. case block r round of Inl e \<Rightarrow> [] | Inr b \<Rightarrow> [BlockItem round])
                       [cursor w + 1..currentRound]))
          else (w, []))"

text \<open>
  The six events that search the indexer differ in the query and in the transactions they
  keep; the cursor is handled in the same way in all of them.
\<close>

definition poll_search ::
  "remote \<Rightarrow> webhookData \<Rightarrow> string \<Rightarrow> query \<Rightarrow> (txn \<Rightarrow> bool) \<Rightarrow> webhookData \<times> trigger_item list" where
  "poll_search r w ev q keep =
     (case status_last_round r of
        Inl e \<Rightarrow> (w, [])
      | Inr currentRound \<Rightarrow>
          if cursor w > 0 then
            (case searchForTransactions r
                    (q\<lparr>q_minRound := cursor w + 1, q_maxRound := currentRound\<rparr>) of
               Inl e \<Rightarrow> (w, [])
             | Inr transactions \<Rightarrow>
                 (w\<lparr>lastRound := Some currentRound\<rparr>, map (TxItem ev) (filter keep transactions)))
          else (w\<lparr>lastRound := Some currentRound\<rparr>, []))"

definition payment_at_least :: "number \<Rightarrow> txn \<Rightarrow> bool" where
  "payment_at_least minimum tx =
     num_ge (microAlgoToAlgo (Fin (of_int (case payment_amount tx of None \<Rightarrow> 0 | Some a \<Rightarrow> a))))
       minimum"

definition is_opt_in :: "txn \<Rightarrow> bool" where
  "is_opt_in tx =
     (case axfer tx of None \<Rightarrow> False | Some (receiver, amount) \<Rightarrow> sender tx = receiver \<and> amount = 0)"

definition poll_balanceChange ::
  "poll_params \<Rightarrow> remote \<Rightarrow> webhookData \<Rightarrow> webhookData \<times> trigger_item list" where
  "poll_balanceChange ps r w =
     (case account_amount r (address ps) of
        Inl e \<Rightarrow> (w, [])
      | Inr currentBalance \<Rightarrow>
          (let previous = (case lastBalance w of None \<Rightarrow> 0 | Some b \<Rightarrow> b);
               change = currentBalance - previous
           in (w\<lparr>lastBalance := Some currentBalance\<rparr>,
               if previous > 0 \<and> change \<noteq> 0
                  \<and> num_ge (microAlgoToAlgo (Fin (of_int \<bar>change\<bar>))) (minAmount ps)
               then [BalanceItem previous currentBalance] else [])))"

definition poll ::
  "poll_params \<Rightarrow> remote \<Rightarrow> webhookData \<Rightarrow> webhookData \<times> trigger_item list option" where
  "poll ps r w =
     (let (w', returnData) =
        (if event ps = ''newBlock'' then poll_newBlock r w
         else if event ps = ''transactionForAddress'' then
           poll_search r w (event ps) (no_query\<lparr>q_address := Some (address ps)\<rparr>) (\<lambda>tx. True)
         else if event ps = ''paymentReceived'' then
           poll_search r w (event ps)
             (no_query\<lparr>q_address := Some (address ps), q_addressRole := Some ''receiver'',
                q_txType := Some ''pay''\<rparr>)
             (payment_at_least (minAmount ps))
         else if event ps = ''paymentSent'' then
           poll_search r w (event ps)
             (no_query\<lparr>q_address := Some (address ps), q_addressRole := Some ''sender'',
                q_txType := Some ''pay''\<rparr>)
             (payment_at_least (minAmount ps))
         else if event ps = ''assetTransfer'' then
           poll_search r w (event ps)
             (no_query\<lparr>q_assetID := Some (assetId ps), q_txType := Some ''axfer''\<rparr>) (\<lambda>tx. True)
         else if event ps = ''assetOptIn'' then
           poll_search r w (event ps)
             (no_query\<lparr>q_assetID := Some (assetId ps), q_txType := Some ''axfer''\<rparr>) is_opt_in
         else if event ps = ''applicationCall'' then
           poll_search r w (event ps) (no_query\<lparr>q_applicationID := Some (appId ps)\<rparr>) (\<lambda>tx. True)
         else if event ps = ''balanceChange'' then poll_balanceChange ps r w
         else (w, []))
      in (w', if returnData = [] then None else Some returnData))"


section \<open>Sample inputs\<close>

text \<open>A checksum function to run the address check on: the sum of the key bytes.\<close>

definition sample_checksum :: "bytes \<Rightarrow> bytes" where
  "sample_checksum publicKey = [sum_list publicKey mod 256, 0, 0, 0]"

text \<open>
  A batch of NFT operations in which item 1 names a resource the node does not have and
  the handler of item 2 throws.
\<close>

definition sample_host :: "bool \<Rightarrow> host" where
  "sample_host cof = \<lparr>continueOnFail = cof,
     resource_of = (\<lambda>i. if i = 1 then ''wallet'' else ''nft''),
     try_body = (\<lambda>resource i.
        if i = 2 then ([], Some ''Invalid recipient address'')
        else ([\<lparr>json = [(''success'', ''true'')], pairedItem = Some i\<rparr>], None))\<rparr>"

text \<open>
  A trigger that watches an address, a node that reports round 90, and a node that reports
  round 101 and whose indexer knows one transaction, confirmed in round 100.
\<close>

definition watch_address :: poll_params where
  "watch_address = \<lparr>event = ''transactionForAddress'', address = ''A'', assetId = 0, appId = 0,
     minAmount = Fin 0\<rparr>"


definition tx_of_round_100 :: txn where
  "tx_of_round_100 = \<lparr>tx_id = ''TX100'', sender = ''A'', payment_amount = Some 5, axfer = None\<rparr>"

definition current_node :: remote where
  "current_node = \<lparr>status_last_round = Inr 101, block = (\<lambda>round. Inr ()),
     searchForTransactions =
       (\<lambda>q. if q_minRound q \<le> 100 \<and> 100 \<le> q_maxRound q then Inr [tx_of_round_100] else Inr []),
     account_amount = (\<lambda>a. Inr 0)\<rparr>"


section \<open>Properties\<close>

subsection \<open>Minimum balance\<close>




subsection \<open>ARC classification\<close>

text \<open>
  Claim C3. \<open>detectArcStandard\<close> returns a value for every pair of optional strings (it
  never throws) and classifies in this order: ARC3 when the url ends with \<open>#arc3\<close> or
  contains \<open>arc3\<close>; otherwise ARC19 when the url starts with \<open>template-ipfs://\<close>; otherwise
  ARC3 when the name ends with \<open>@arc3\<close>; otherwise unknown. An absent argument satisfies
  none of the tests.
\<close>

theorem detectArcStandard_priority:
  "detectArcStandard assetUrl assetName = Inr (
     if (\<exists>u. assetUrl = Some u \<and> (endsWith u ''#arc3'' \<or> includes_str u ''arc3'')) then ARC3
     else if (\<exists>u. assetUrl = Some u \<and> startsWith u ''template-ipfs://'') then ARC19
     else if (\<exists>n. assetName = Some n \<and> endsWith n ''@arc3'') then ARC3
     else unknown)"
  by (cases assetUrl; cases assetName)
     (auto simp: detectArcStandard_def detect_by_name_def bind_result_def truthy_str_def
        opt_endsWith_def opt_includes_def opt_startsWith_def endsWith_def includes_str_def
        startsWith_def)

theorem detectArcStandard_priority_witness:
  "detectArcStandard (Some ''ipfs://Qm...#arc3'') (Some ''MyNFT'') = Inr ARC3
   \<and> detectArcStandard (Some ''template-ipfs://{ipfscid}'') (Some ''MyNFT'') = Inr ARC19
   \<and> detectArcStandard (Some ''https://example.com/x.json'') (Some ''MyNFT'') = Inr unknown
   \<and> detectArcStandard None (Some ''MyNFT@arc3'') = Inr ARC3
   \<and> detectArcStandard None None = Inr unknown"
  using detectArcStandard_priority [of "Some ''ipfs://Qm...#arc3''" "Some ''MyNFT''"]
    detectArcStandard_priority [of "Some ''template-ipfs://{ipfscid}''" "Some ''MyNFT''"]
    detectArcStandard_priority [of "Some ''https://example.com/x.json''" "Some ''MyNFT''"]
    detectArcStandard_priority [of None "Some ''MyNFT@arc3''"]
    detectArcStandard_priority [of None None]
  by (simp add: endsWith_def includes_str_def startsWith_def suffix_to_prefix sublist_code)

subsection \<open>Gateway rewriting\<close>

lemma ipfsToHttp_prefixed: "ipfsToHttp (''ipfs://'' @ r) g = g @ r"
  by (simp add: ipfsToHttp_def startsWith_def slice_def)

lemma ipfsToHttp_other: "\<not> prefix ''ipfs://'' link \<Longrightarrow> ipfsToHttp link g = link"
  by (simp add: ipfsToHttp_def startsWith_def)

lemma ipfsToHttp_cases:
  obtains r where "link = ''ipfs://'' @ r" "ipfsToHttp link g = g @ r"
  | "\<not> prefix ''ipfs://'' link" "ipfsToHttp link g = link"
proof (cases "prefix ''ipfs://'' link")
  case True
  then obtain r where "link = ''ipfs://'' @ r" by (auto simp: prefix_def)
  then show ?thesis using that(1) ipfsToHttp_prefixed by blast
next
  case False
  then show ?thesis using that(2) ipfsToHttp_other by blast
qed

text \<open>
  A second application changes nothing when the gateway is \<open>ipfs://\<close> itself (the function
  is then the identity) or when no string \<open>gateway + rest\<close> can start with \<open>ipfs://\<close>.
\<close>

lemma ipfsToHttp_idempotent_if:
  assumes "g = ''ipfs://'' \<or> (\<not> prefix g ''ipfs://'' \<and> \<not> prefix ''ipfs://'' g)"
  shows "ipfsToHttp (ipfsToHttp link g) g = ipfsToHttp link g"
proof (rule ipfsToHttp_cases [of link g])
  fix r assume u: "link = ''ipfs://'' @ r" and f: "ipfsToHttp link g = g @ r"
  from assms show ?thesis
  proof
    assume "g = ''ipfs://''"
    then show ?thesis using f ipfsToHttp_prefixed by simp
  next
    assume "\<not> prefix g ''ipfs://'' \<and> \<not> prefix ''ipfs://'' g"
    then have "\<not> prefix ''ipfs://'' (g @ r)"
      unfolding prefix_append by (auto simp: prefix_def)
    then show ?thesis using f ipfsToHttp_other by simp
  qed
next
  assume "\<not> prefix ''ipfs://'' link" "ipfsToHttp link g = link"
  then show ?thesis by simp
qed

text \<open>Any other gateway has a link on which the second application changes the result.\<close>

lemma ipfsToHttp_idempotent_only_if:
  assumes "g \<noteq> ''ipfs://''" and "prefix g ''ipfs://'' \<or> prefix ''ipfs://'' g"
  shows "\<exists>link. ipfsToHttp (ipfsToHttp link g) g \<noteq> ipfsToHttp link g"
  using assms(2)
proof
  assume "prefix ''ipfs://'' g"
  then obtain g' where g: "g = ''ipfs://'' @ g'" by (auto simp: prefix_def)
  with assms(1) have "g' \<noteq> []" by auto
  have "ipfsToHttp ''ipfs://'' g = g" using ipfsToHttp_prefixed [of "[]" g] by simp
  moreover have "ipfsToHttp g g = g @ g'" using ipfsToHttp_prefixed [of g' g] g by simp
  ultimately show ?thesis using \<open>g' \<noteq> []\<close> by (intro exI [of _ "''ipfs://''"]) simp
next
  assume "prefix g ''ipfs://''"
  then obtain us where p: "''ipfs://'' = g @ us" by (auto simp: prefix_def)
  with assms(1) have "us \<noteq> []" by auto
  have "ipfsToHttp (''ipfs://'' @ us) g = ''ipfs://''"
    using ipfsToHttp_prefixed [of us g] p by simp
  moreover have "ipfsToHttp ''ipfs://'' g = g" using ipfsToHttp_prefixed [of "[]" g] by simp
  moreover have "g \<noteq> ''ipfs://''" by (rule assms(1))
  ultimately show ?thesis by (intro exI [of _ "''ipfs://'' @ us"]) simp
qed

text \<open>
  Claim C4, as stated: \<open>ipfsToHttp\<close> is idempotent for every link and every gateway. It is
  not: with the gateway \<open>ipfs://a/\<close> the link \<open>ipfs://x\<close> becomes \<open>ipfs://a/x\<close>, and that
  becomes \<open>ipfs://a/a/x\<close>.
\<close>

theorem ipfsToHttp_idempotent_counterexample:
  "ipfsToHttp (ipfsToHttp ''ipfs://x'' ''ipfs://a/'') ''ipfs://a/''
     \<noteq> ipfsToHttp ''ipfs://x'' ''ipfs://a/''"
  by (simp add: ipfsToHttp_def startsWith_def slice_def)

text \<open>
  Claim C4, amended. \<open>ipfsToHttp\<close> rewrites a link that starts with \<open>ipfs://\<close> to the gateway
  followed by the rest of the link, and returns any other link unchanged. For a given
  gateway it is idempotent on all urls exactly when the gateway is \<open>ipfs://\<close> itself, or
  neither starts with \<open>ipfs://\<close> nor is the beginning of \<open>ipfs://\<close>; every \<open>http\<close> or
  \<open>https\<close> gateway, the default one included, is of the second kind.
\<close>

theorem ipfsToHttp_idempotent_iff:
  "ipfsToHttp link g = (if startsWith link ''ipfs://'' then g @ slice link 7 else link) \<and>
   ((\<forall>u. ipfsToHttp (ipfsToHttp u g) g = ipfsToHttp u g) \<longleftrightarrow>
    (g = ''ipfs://'' \<or> (\<not> startsWith ''ipfs://'' g \<and> \<not> startsWith g ''ipfs://'')))"
proof
  show "ipfsToHttp link g = (if startsWith link ''ipfs://'' then g @ slice link 7 else link)"
    by (simp add: ipfsToHttp_def)
  show "(\<forall>u. ipfsToHttp (ipfsToHttp u g) g = ipfsToHttp u g) \<longleftrightarrow>
    (g = ''ipfs://'' \<or> (\<not> startsWith ''ipfs://'' g \<and> \<not> startsWith g ''ipfs://''))"
    unfolding startsWith_def
    using ipfsToHttp_idempotent_if [of g] ipfsToHttp_idempotent_only_if [of g] by blast
qed

theorem ipfsToHttp_idempotent_witness:
  "ipfsToHttp ''ipfs://Qm123'' default_gateway = ''https://ipfs.io/ipfs/Qm123''
   \<and> ipfsToHttp (ipfsToHttp ''ipfs://Qm123'' default_gateway) default_gateway
       = ''https://ipfs.io/ipfs/Qm123''
   \<and> ipfsToHttp ''https://example.com/image.png'' default_gateway
       = ''https://example.com/image.png''"
proof -
  have g: "\<not> startsWith ''ipfs://'' default_gateway \<and> \<not> startsWith default_gateway ''ipfs://''"
    by (simp add: startsWith_def default_gateway_def)
  have 1: "ipfsToHttp ''ipfs://Qm123'' default_gateway = ''https://ipfs.io/ipfs/Qm123''"
    using ipfsToHttp_idempotent_iff [of "''ipfs://Qm123''" default_gateway]
    by (simp add: startsWith_def slice_def default_gateway_def)
  have 2: "ipfsToHttp (ipfsToHttp ''ipfs://Qm123'' default_gateway) default_gateway
      = ipfsToHttp ''ipfs://Qm123'' default_gateway"
    using ipfsToHttp_idempotent_iff [of "''ipfs://Qm123''" default_gateway] g by blast
  have 3: "ipfsToHttp ''https://example.com/image.png'' default_gateway
      = ''https://example.com/image.png''"
    using ipfsToHttp_idempotent_iff [of "''https://example.com/image.png''" default_gateway]
    by (simp add: startsWith_def)
  from 1 2 3 show ?thesis by simp
qed

subsection \<open>Rounding to double precision\<close>

lemma bitlen_bounds: "0 < n \<Longrightarrow> 2 ^ (bitlen n - 1) \<le> n \<and> n < 2 ^ bitlen n"
proof (induction n rule: bitlen.induct)
  case (1 n)
  show ?case
  proof (cases "n div 2 = 0")
    case True
    with 1(2) have "n = 1" by (simp add: div_eq_0_iff)
    then show ?thesis by (simp add: bitlen.simps)
  next
    case False
    then have pos: "0 < n div 2" by simp
    let ?b = "bitlen (n div 2)"
    from 1(1) [OF _ pos] 1(2) have IH: "2 ^ (?b - 1) \<le> n div 2" "n div 2 < 2 ^ ?b" by auto
    have b: "bitlen n = Suc ?b" using 1(2) by (subst bitlen.simps) simp
    have bpos: "0 < ?b" using pos by (subst bitlen.simps) simp
    have "2 ^ ?b = 2 * 2 ^ (?b - 1)" using bpos by (cases ?b) auto
    also have "\<dots> \<le> 2 * (n div 2)" using IH(1) by simp
    also have "\<dots> \<le> n" by simp
    finally have lo: "2 ^ ?b \<le> n" .
    have "n < 2 * (n div 2 + 1)" by arith
    also have "\<dots> \<le> 2 * 2 ^ ?b" using IH(2) by simp
    finally have hi: "n < 2 ^ Suc ?b" by simp
    show ?thesis using lo hi b by simp
  qed
qed

lemma bitlen_pos: "0 < n \<Longrightarrow> 0 < bitlen n"
  by (subst bitlen.simps) simp

lemma exponent_bounds:
  assumes "0 < a"
  shows "2 powi (exponent a) \<le> a \<and> a < 2 powi (exponent a + 1)"
proof (cases "1 \<le> a")
  case True
  let ?n = "nat \<lfloor>a\<rfloor>"
  let ?b = "bitlen ?n"
  have n: "0 < ?n" using True by simp
  have e: "exponent a = int ?b - 1" using True by (simp add: exponent_def)
  have bp: "0 < ?b" using n by (rule bitlen_pos)
  from bitlen_bounds [OF n] have b1: "2 ^ (?b - 1) \<le> ?n" and b2: "?n < 2 ^ ?b" by auto
  have "real ?n \<le> a" using True by simp
  have e1: "(2::real) powi (int ?b - 1) = 2 ^ (?b - 1)"
    using bp by (simp add: power_int_def nat_diff_distrib')
  have "(2::real) ^ (?b - 1) \<le> real ?n" using b1 by (metis of_nat_le_iff of_nat_numeral of_nat_power)
  then have "(2::real) ^ (?b - 1) \<le> a" using \<open>real ?n \<le> a\<close> by (rule order_trans)
  then have lo: "(2::real) powi (exponent a) \<le> a" unfolding e e1 .
  have "real ?n + 1 \<le> 2 ^ ?b" using b2 by (metis Suc_leI of_nat_Suc of_nat_le_iff of_nat_numeral of_nat_power add.commute)
  moreover have "a < real ?n + 1" using True by (simp add: floor_correct)
  ultimately have hi: "a < 2 powi (exponent a + 1)" using e by simp
  show ?thesis using lo hi by simp
next
  case False
  let ?c = "\<lceil>1 / a\<rceil>"
  let ?n = "nat (?c - 1)"
  let ?b = "bitlen ?n"
  have a1: "a < 1" using False by simp
  have "1 < 1 / a" using assms a1 by simp
  then have c2: "2 \<le> ?c" by (simp add: le_ceiling_iff) 
  then have n: "0 < ?n" by simp
  have e: "exponent a = - int ?b" using False by (simp add: exponent_def)
  have bp: "0 < ?b" using n by (rule bitlen_pos)
  from bitlen_bounds [OF n] have b1: "2 ^ (?b - 1) \<le> ?n" and b2: "?n < 2 ^ ?b" by auto
  have "0 \<le> ?c - 1" using c2 by linarith
  then have "real ?n = real_of_int (?c - 1)" by (rule of_nat_nat)
  then have cn: "of_int ?c = real ?n + 1" by simp
  have "1 / a \<le> of_int ?c" by (rule le_of_int_ceiling)
  also have "\<dots> \<le> 2 ^ ?b" using b2 cn by (metis Suc_leI of_nat_Suc of_nat_le_iff of_nat_numeral of_nat_power add.commute)
  finally have "1 / a \<le> 2 ^ ?b" .
  then have "1 \<le> 2 ^ ?b * a" using assms by (simp add: field_simps)
  then have lo: "(2::real) powi (- int ?b) \<le> a" 
    by (simp add: power_int_minus field_simps)
  have "real ?n < 1 / a" using cn by (metis add_diff_cancel_right' ceiling_correct of_int_1 of_int_diff less_eq_real_def not_le)
  moreover have "(2::real) ^ (?b - 1) \<le> real ?n" using b1 by (metis of_nat_le_iff of_nat_numeral of_nat_power)
  ultimately have "(2::real) ^ (?b - 1) < 1 / a" by (rule order_le_less_trans [rotated])
  then have "a < 1 / 2 ^ (?b - 1)" using assms by (simp add: field_simps)
  moreover have "(2::real) powi (- int ?b + 1) = 1 / 2 ^ (?b - 1)"
    using bp by (cases ?b) (simp_all add: power_int_def field_simps nat_add_distrib)
  ultimately have hi: "a < 2 powi (- int ?b + 1)" by (simp only:)
  show ?thesis using lo hi e by simp
qed

lemma pow2_less_imp_less:
  assumes "(2::real) powi m < 2 powi n"
  shows "m < n"
proof (rule ccontr)
  assume "\<not> m < n"
  then have "n \<le> m" by simp
  then have "(2::real) powi n \<le> 2 powi m" by (intro power_int_increasing) auto
  with assms show False by simp
qed

lemma exponent_unique:
  assumes "2 powi e \<le> a" "a < 2 powi (e + 1)"
  shows "exponent a = e"
proof -
  have "0 < (2::real) powi e" by simp
  with assms(1) have "0 < a" by linarith
  from exponent_bounds [OF this] have b: "2 powi (exponent a) \<le> a" "a < 2 powi (exponent a + 1)" by auto
  have "(2::real) powi e < 2 powi (exponent a + 1)" using assms(1) b(2) by simp
  then have 1: "e < exponent a + 1" by (rule pow2_less_imp_less)
  have "(2::real) powi (exponent a) < 2 powi (e + 1)" using assms(2) b(1) by simp
  then have 2: "exponent a < e + 1" by (rule pow2_less_imp_less)
  from 1 2 show ?thesis by simp
qed

lemma round_even_error: "\<bar>of_int (round_even m) - m\<bar> \<le> 1 / 2"
  unfolding round_even_def Let_def by (auto; linarith)

lemma round_even_mono_bound:
  assumes "m < of_int k"
  shows "round_even m \<le> k"
proof -
  have "\<lfloor>m\<rfloor> < k" using assms by (simp add: floor_less_iff)
  then show ?thesis unfolding round_even_def Let_def by auto
qed

lemma round_even_nonneg: "0 \<le> m \<Longrightarrow> 0 \<le> round_even m"
  unfolding round_even_def Let_def by auto

lemma fl_finite_value:
  assumes "0 < a" "2 powi e \<le> a" "a < 2 powi (e + 1)" "- 1022 \<le> e" "e \<le> 1022"
  shows "of_int (round_even (a / 2 powi (e - 52))) * 2 powi (e - 52) < (2::real) ^ 1024"
proof -
  let ?q = "(2::real) powi (e - 52)"
  have q: "0 < ?q" by simp
  have "e + 1 = (e - 52) + 53" by simp
  then have "(2::real) powi (e + 1) = 2 powi ((e - 52) + 53)" by (rule arg_cong)
  also have "\<dots> = ?q * 2 powi 53" by (rule power_int_add) simp
  finally have "2 powi (e + 1) = ?q * 2 ^ 53" by simp
  then have "a / ?q < 2 ^ 53" using assms(3) q by (simp add: field_simps)
  then have "a / ?q < of_int (2 ^ 53)" by simp
  then have "round_even (a / ?q) \<le> 2 ^ 53" by (rule round_even_mono_bound)
  then have "real_of_int (round_even (a / ?q)) \<le> 2 ^ 53"
    by (metis of_int_le_iff of_int_numeral of_int_power)
  then have "of_int (round_even (a / ?q)) * ?q \<le> 2 ^ 53 * ?q" using q by simp
  also have "\<dots> = 2 powi (e + 1)" using \<open>2 powi (e + 1) = ?q * 2 ^ 53\<close> by simp
  also have "\<dots> \<le> 2 powi 1023" using assms(5) by (intro power_int_increasing) auto
  also have "\<dots> < 2 ^ 1024" by simp
  finally show ?thesis .
qed

lemma fl_normal:
  assumes "0 < a" "2 powi e \<le> a" "a < 2 powi (e + 1)" "- 1022 \<le> e" "e \<le> 1022"
  shows "fl a = Fin (of_int (round_even (a / 2 powi (e - 52))) * 2 powi (e - 52))"
    and "fl (- a) = Fin (- (of_int (round_even (a / 2 powi (e - 52))) * 2 powi (e - 52)))"
proof -
  have e: "exponent a = e" using assms(2,3) by (rule exponent_unique)
  have m: "max e (- 1022) = e" using assms(4) by simp
  note v = fl_finite_value [OF assms]
  show "fl a = Fin (of_int (round_even (a / 2 powi (e - 52))) * 2 powi (e - 52))"
    using assms(1) v by (simp add: fl_def Let_def e m)
  show "fl (- a) = Fin (- (of_int (round_even (a / 2 powi (e - 52))) * 2 powi (e - 52)))"
    using assms(1) v by (simp add: fl_def Let_def e m)
qed

text \<open>
  In the normal range the result of rounding is finite and differs from the exact value
  by at most \<open>2^(- 53)\<close> times that value.
\<close>

lemma fl_error:
  assumes "0 < a" "2 powi (- 1022) \<le> a" "a < 2 powi 1023"
  obtains y where "fl a = Fin y" "fl (- a) = Fin (- y)" "\<bar>y - a\<bar> \<le> a / 2 ^ 53"
proof -
  define e where "e = exponent a"
  from exponent_bounds [OF assms(1)] have b: "2 powi e \<le> a" "a < 2 powi (e + 1)"
    by (auto simp: e_def)
  have "(2::real) powi (- 1022) < 2 powi (e + 1)" using assms(2) b(2) by simp
  then have "- 1022 < e + 1" by (rule pow2_less_imp_less)
  then have lo: "- 1022 \<le> e" by simp
  have "(2::real) powi e < 2 powi 1023" using assms(3) b(1) by simp
  then have "e < 1023" by (rule pow2_less_imp_less)
  then have hi: "e \<le> 1022" by simp
  let ?q = "(2::real) powi (e - 52)"
  let ?r = "real_of_int (round_even (a / ?q))"
  have q: "0 < ?q" by simp
  have "\<bar>?r - a / ?q\<bar> \<le> 1 / 2" by (rule round_even_error)
  then have "\<bar>?r - a / ?q\<bar> * ?q \<le> 1 / 2 * ?q" using q by (simp only: mult_le_cancel_right_pos)
  moreover have "\<bar>?r - a / ?q\<bar> * ?q = \<bar>?r * ?q - a\<bar>"
    using q by (simp add: abs_mult [symmetric] field_simps)
  moreover have "?q * 2 ^ 52 = 2 powi e"
  proof -
    have "e = (e - 52) + 52" by simp
    then have "(2::real) powi e = 2 powi ((e - 52) + 52)" by (rule arg_cong)
    also have "\<dots> = ?q * 2 powi 52" by (rule power_int_add) simp
    finally show ?thesis by simp
  qed
  ultimately have "\<bar>?r * ?q - a\<bar> \<le> 2 powi e / 2 ^ 53" by (simp add: field_simps)
  also have "\<dots> \<le> a / 2 ^ 53" using b(1) by (simp add: field_simps)
  finally have err: "\<bar>?r * ?q - a\<bar> \<le> a / 2 ^ 53" .
  from fl_normal [OF assms(1) b lo hi] err that show ?thesis by blast
qed

lemma fl_zero: "fl 0 = Fin 0" by (simp add: fl_def)

lemma pow_m1022_small: "(2::real) powi (- 1022) \<le> 1 / 10 ^ 6"
proof -
  have "(2::real) powi (- 1022) \<le> 2 powi (- 20)" by (intro power_int_increasing) auto
  also have "\<dots> = 1 / 2 ^ 20" by (simp add: power_int_minus field_simps)
  also have "\<dots> \<le> 1 / 10 ^ 6" by simp
  finally show ?thesis .
qed

lemma pow_1023_big: "(2::real) ^ 52 \<le> 2 powi 1023"
proof -
  have "(2::real) powi 52 \<le> 2 powi 1023" by (intro power_int_increasing) auto
  then show ?thesis by simp
qed

text \<open>
  Integers up to \<open>2^53\<close> in magnitude are doubles, so sums and products of integers are
  exact as long as they stay in that range.
\<close>

lemma round_even_of_int: "round_even (of_int z) = z"
  by (simp add: round_even_def)

lemma fl_nat_exact:
  assumes "0 < n" "n \<le> 2 ^ 53"
  shows "fl (real n) = Fin (real n)" and "fl (- real n) = Fin (- real n)"
proof -
  define a where "a = real n"
  define e where "e = exponent a"
  have a1: "1 \<le> a" using assms(1) by (simp add: a_def)
  have a2: "a \<le> 2 ^ 53"
  proof -
    have "real n \<le> real (2 ^ 53)" using assms(2) by (rule iffD2 [OF of_nat_le_iff])
    then show ?thesis by (simp add: a_def)
  qed
  have a0: "0 < a" using a1 by simp
  from exponent_bounds [OF a0] have b: "2 powi e \<le> a" "a < 2 powi (e + 1)" by (auto simp: e_def)
  have "(2::real) powi 0 < 2 powi (e + 1)" using a1 b(2) by simp
  then have "0 < e + 1" by (rule pow2_less_imp_less)
  then have e0: "0 \<le> e" by simp
  have "(2::real) powi e \<le> 2 powi 53" using b(1) a2 by simp
  then have e53: "e \<le> 53"
  proof -
    have "\<not> 53 < e"
    proof
      assume "53 < e"
      then have "(2::real) powi 53 < 2 powi e" by (intro power_int_strict_increasing) auto
      with \<open>(2::real) powi e \<le> 2 powi 53\<close> show False by simp
    qed
    then show ?thesis by simp
  qed
  have int_quot: "\<exists>z::int. a / 2 powi (e - 52) = of_int z"
  proof (cases "e \<le> 52")
    case True
    then have "(2::real) powi (e - 52) = 1 / 2 ^ nat (52 - e)"
      by (simp add: power_int_def field_simps)
    then have "a / 2 powi (e - 52) = of_int (int n * 2 ^ nat (52 - e))" by (simp add: a_def)
    then show ?thesis by blast
  next
    case False
    with e53 have e: "e = 53" by simp
    then have "2 ^ 53 \<le> a" using b(1) by simp
    with a2 have "a = 2 ^ 53" by simp
    then have "a / 2 powi (e - 52) = of_int (2 ^ 52)" using e by simp
    then show ?thesis by blast
  qed
  then obtain z :: int where z: "a / 2 powi (e - 52) = of_int z" by blast
  have q: "(2::real) powi (e - 52) \<noteq> 0" by simp
  have prod: "of_int z * 2 powi (e - 52) = a" using z q by (simp add: field_simps)
  have lo: "- 1022 \<le> e" and hi: "e \<le> 1022" using e0 e53 by simp_all
  from fl_normal [OF a0 b lo hi]
  have "fl a = Fin a" "fl (- a) = Fin (- a)" unfolding z round_even_of_int prod by simp_all
  then show "fl (real n) = Fin (real n)" and "fl (- real n) = Fin (- real n)" by (simp_all add: a_def)
qed

lemma fl_int_exact:
  assumes "\<bar>k\<bar> \<le> 2 ^ 53"
  shows "fl (of_int k) = Fin (of_int k)"
proof -
  consider "k = 0" | "0 < k" | "k < 0" by linarith
  then show ?thesis
  proof cases
    case 1
    then show ?thesis by (simp add: fl_zero)
  next
    case 2
    then have "0 < nat k" "nat k \<le> 2 ^ 53" using assms by (simp_all add: nat_le_iff)
    from fl_nat_exact(1) [OF this] 2 show ?thesis by simp
  next
    case 3
    then have "0 < nat (- k)" "nat (- k) \<le> 2 ^ 53" using assms by (simp_all add: nat_le_iff)
    from fl_nat_exact(2) [OF this] 3 show ?thesis by simp
  qed
qed

lemma add_reserve_in_doubles:
  assumes "\<bar>n * c\<bar> \<le> 2 ^ 53" "\<bar>m + n * c\<bar> \<le> 2 ^ 53"
  shows "num_add (Fin (of_int m)) (num_mul (Fin (of_int n)) (Fin (of_int c)))
           = Fin (of_int (m + n * c))"
proof -
  have "num_mul (Fin (of_int n)) (Fin (of_int c)) = Fin (of_int (n * c))"
    using fl_int_exact [OF assms(1)] by simp
  moreover have "num_add (Fin (of_int m)) (Fin (of_int (n * c))) = Fin (of_int (m + n * c))"
    using fl_int_exact [OF assms(2)] by simp
  ultimately show ?thesis by simp
qed

text \<open>In the subnormal range the result is finite and at most \<open>2^(- 1022)\<close>.\<close>

lemma fl_subnormal:
  assumes "0 < a" "a < 2 powi (- 1022)"
  obtains y where "fl a = Fin y" "fl (- a) = Fin (- y)" "0 \<le> y" "y \<le> 2 powi (- 1022)"
proof -
  from exponent_bounds [OF assms(1)] have "2 powi (exponent a) \<le> a" by simp
  with assms(2) have "(2::real) powi (exponent a) < 2 powi (- 1022)" by simp
  then have "exponent a < - 1022" by (rule pow2_less_imp_less)
  then have m: "max (exponent a) (- 1022) - 52 = - 1074" by simp
  let ?q = "(2::real) powi (- 1074)"
  let ?r = "round_even (a / ?q)"
  have q: "0 < ?q" by simp
  have "(2::real) powi (- 1022) = 2 powi (- 1074 + 52)" by simp
  also have "\<dots> = ?q * 2 powi 52" by (rule power_int_add) simp
  finally have s: "2 powi (- 1022) = ?q * 2 ^ 52" by simp
  then have "a / ?q < 2 ^ 52" using assms(2) q by (simp add: field_simps)
  then have "a / ?q < of_int (2 ^ 52)" by simp
  then have "?r \<le> 2 ^ 52" by (rule round_even_mono_bound)
  then have "real_of_int ?r \<le> 2 ^ 52" by (metis of_int_le_iff of_int_numeral of_int_power)
  then have "of_int ?r * ?q \<le> 2 ^ 52 * ?q" using q by simp
  then have hi: "of_int ?r * ?q \<le> 2 powi (- 1022)" using s by simp
  have "(2::real) powi (- 1022) \<le> 2 powi 0" by (intro power_int_increasing) auto
  moreover have "(1::real) < 2 ^ 1024" by simp
  ultimately have "(2::real) powi (- 1022) < 2 ^ 1024" by simp
  with hi have v: "of_int ?r * ?q < (2::real) ^ 1024" by simp
  have "0 \<le> a / ?q" using assms(1) q by simp
  then have "0 \<le> ?r" by (rule round_even_nonneg)
  then have lo: "0 \<le> of_int ?r * ?q" using q by simp
  have 1: "fl a = Fin (of_int ?r * ?q)" using assms(1) v by (simp add: fl_def Let_def m)
  have 2: "fl (- a) = Fin (- (of_int ?r * ?q))" using assms(1) v by (simp add: fl_def Let_def m)
  from 1 2 lo hi that show ?thesis by blast
qed

lemma Math_round_error: "\<bar>of_int \<lfloor>y + 1 / 2\<rfloor> - y\<bar> \<le> 1 / (2::real)"
  by linarith

lemma product_rounded:
  assumes "\<bar>p\<bar> < 2 powi 1023"
  shows "\<exists>r::int. Math_round (fl p) = Fin (of_int r) \<and> \<bar>of_int r - p\<bar> \<le> 1 / 2 + \<bar>p\<bar> / 2 ^ 53"
proof -
  define a where "a = \<bar>p\<bar>"
  have S: "(2::real) powi (- 1022) \<le> 1 / 1000000" using pow_m1022_small by simp
  consider "p = 0" | "0 < a" "a < 2 powi (- 1022)" | "0 < a" "2 powi (- 1022) \<le> a"
    unfolding a_def by fastforce
  then show ?thesis
  proof cases
    case 1
    then show ?thesis by (simp add: fl_zero)
  next
    case 2
    from fl_subnormal [OF 2] obtain y where y: "fl a = Fin y" "fl (- a) = Fin (- y)" "0 \<le> y" "y \<le> 2 powi (- 1022)"
      by blast
    have y2: "y \<le> 1 / 1000000" using y(4) S by linarith
    have f1: "\<lfloor>y + 1 / 2\<rfloor> = 0" using y(3) y2 by (intro floor_unique) simp_all
    have f2: "\<lfloor>- y + 1 / 2\<rfloor> = 0" using y(3) y2 by (intro floor_unique) simp_all
    have "Math_round (fl p) = Fin 0"
    proof (cases "0 < p")
      case True then have "p = a" by (simp add: a_def)
      then show ?thesis using y(1) f1 by simp
    next
      case False then have "p = - a" by (simp add: a_def)
      then show ?thesis using y(2) f2 by simp
    qed
    moreover have "\<bar>p\<bar> \<le> 1 / 2" using 2(2) S by (simp add: a_def)
    ultimately show ?thesis by (intro exI [of _ 0]) simp
  next
    case 3
    have "a < 2 powi 1023" using assms by (simp add: a_def)
    from fl_error [OF 3 this] obtain y where y: "fl a = Fin y" "fl (- a) = Fin (- y)" "\<bar>y - a\<bar> \<le> a / 2 ^ 53"
      by blast
    have ya: "\<bar>y - a\<bar> \<le> a / 9007199254740992" using y(3) by simp
    have K: "\<And>b::real. b / 2 ^ 53 = b / 9007199254740992" by simp
    show ?thesis
    proof (cases "0 < p")
      case True then have p: "p = a" by (simp add: a_def)
      have "Math_round (fl p) = Fin (of_int \<lfloor>y + 1 / 2\<rfloor>)" using y(1) p by simp
      moreover have "\<bar>of_int \<lfloor>y + 1 / 2\<rfloor> - p\<bar> \<le> 1 / 2 + \<bar>p\<bar> / 2 ^ 53"
        unfolding p K using Math_round_error [of y] ya 3(1) by linarith
      ultimately show ?thesis by blast
    next
      case False then have p: "p = - a" by (simp add: a_def)
      have "Math_round (fl p) = Fin (of_int \<lfloor>- y + 1 / 2\<rfloor>)" using y(2) p by simp
      moreover have "\<bar>of_int \<lfloor>- y + 1 / 2\<rfloor> - p\<bar> \<le> 1 / 2 + \<bar>p\<bar> / 2 ^ 53"
        unfolding p K using Math_round_error [of "- y"] ya 3(1) by linarith
      ultimately show ?thesis by blast
    qed
  qed
qed

subsection \<open>Unit conversion\<close>

lemma roundtrip_pos:
  assumes "0 < n" "n < 2 ^ 51"
  shows "algoToMicroAlgo (microAlgoToAlgo (Fin (real n))) = Inr (Fin (real n))"
proof -
  define a where "a = real n / 1000000"
  define S where "S = (2::real) powi (- 1022)"
  define B where "B = (2::real) powi 1023"
  have S: "S \<le> 1 / 1000000" using pow_m1022_small by (simp add: S_def)
  have B: "4503599627370496 \<le> B" using pow_1023_big by (simp add: B_def)
  have n1: "1 \<le> real n" using assms(1) by simp
  have n2: "real n \<le> 2251799813685247"
  proof -
    have "n + 1 \<le> 2 ^ 51" using assms(2) by simp
    then have "real (n + 1) \<le> real (2 ^ 51)" by (rule iffD2 [OF of_nat_le_iff])
    then show ?thesis by simp
  qed
  have a0: "0 < a" using n1 by (simp add: a_def)
  have "1 / 1000000 \<le> a" using n1 by (simp add: a_def)
  with S have alo: "S \<le> a" by linarith
  have "a \<le> real n" using n1 by (simp add: a_def)
  with n2 B have ahi: "a < B" by linarith
  from fl_error [OF a0 alo [unfolded S_def] ahi [unfolded B_def]]
  obtain y where y: "fl a = Fin y" "\<bar>y - a\<bar> \<le> a / 2 ^ 53" by blast
  define p where "p = y * 1000000"
  have pn: "\<bar>p - real n\<bar> \<le> real n / 9007199254740992"
  proof -
    have "\<bar>p - real n\<bar> = \<bar>y - a\<bar> * 1000000"
      by (simp add: p_def a_def abs_mult [symmetric] field_simps)
    also have "\<dots> \<le> a / 2 ^ 53 * 1000000" using y(2) by simp
    also have "\<dots> = real n / 9007199254740992" by (simp add: a_def)
    finally show ?thesis .
  qed
  have p0: "0 < p" using pn n1 by linarith
  have plo: "S \<le> p" using pn n1 S by linarith
  have phi: "p < B" using pn n2 B by linarith
  from fl_error [OF p0 plo [unfolded S_def] phi [unfolded B_def]]
  obtain z where z: "fl p = Fin z" "\<bar>z - p\<bar> \<le> p / 2 ^ 53" by blast
  have zp: "\<bar>z - p\<bar> \<le> p / 9007199254740992" using z(2) by simp
  have zn: "\<bar>z - real n\<bar> < 1 / 2" using zp pn n2 by linarith
  have zn1: "real n \<le> z + 1 / 2" and zn2: "z + 1 / 2 < real n + 1" using zn by linarith+
  have fz: "\<lfloor>z + 1 / 2\<rfloor> = int n"
  proof (rule floor_unique)
    show "of_int (int n) \<le> z + 1 / 2" using zn1 by simp
    show "z + 1 / 2 < of_int (int n) + 1" using zn2 by simp
  qed
  have 1: "microAlgoToAlgo (Fin (real n)) = Fin y"
    using y(1) by (simp add: microAlgoToAlgo_def MICROALGOS_PER_ALGO_def a_def)
  have 2: "algoToMicroAlgo (Fin y) = Inr (Fin (of_int \<lfloor>z + 1 / 2\<rfloor>))"
    using z(1) by (simp add: algoToMicroAlgo_def MICROALGOS_PER_ALGO_def p_def)
  show ?thesis unfolding 1 2 fz by simp
qed

lemma roundtrip_zero: "algoToMicroAlgo (microAlgoToAlgo (Fin 0)) = Inr (Fin 0)"
  by (simp add: microAlgoToAlgo_def algoToMicroAlgo_def MICROALGOS_PER_ALGO_def fl_zero)

text \<open>The values the tests of the repository expect.\<close>

lemma fl_half: "fl (1 / 2) = Fin (1 / 2)"
proof -
  have "fl (1 / 2) = Fin (of_int (round_even (1 / 2 / 2 powi (- 1 - 52))) * 2 powi (- 1 - 52))"
    by (rule fl_normal(1)) (simp_all add: power_int_minus)
  moreover have "(1::real) / 2 / 2 powi (- 1 - 52) = of_int (2 ^ 52)"
    by (simp add: power_int_minus)
  ultimately show ?thesis
    by (simp only: round_even_of_int) (simp add: power_int_minus)
qed

lemma unit_conversion_examples:
  "algoToMicroAlgo (Fin 1) = Inr (Fin 1000000)"
  "algoToMicroAlgo (Fin (1 / 2)) = Inr (Fin 500000)"
  "algoToMicroAlgo (Fin 0) = Inr (Fin 0)"
  "microAlgoToAlgo (Fin 1000000) = Fin 1"
  "microAlgoToAlgo (Fin 500000) = Fin (1 / 2)"
  "microAlgoToAlgo (Fin 0) = Fin 0"
  using fl_int_exact [of 1000000] fl_int_exact [of 500000] fl_int_exact [of 1] fl_half
  by (simp_all add: algoToMicroAlgo_def microAlgoToAlgo_def MICROALGOS_PER_ALGO_def fl_zero)

lemma fl_counterexample_quotient: "fl (4373698226200049 / 1000000) = Fin (4586154991235943 / 1048576)"
proof -
  have r: "round_even (4373698226200049 / 1000000 / 2 powi (32 - 52)) = 4586154991235943"
    by (simp add: round_even_def Let_def power_int_minus)
  have "fl (4373698226200049 / 1000000) = Fin (of_int (round_even (4373698226200049 / 1000000 / 2 powi (32 - 52))) * 2 powi (32 - 52))"
    by (rule fl_normal(1)) simp_all
  then show ?thesis unfolding r by (simp add: power_int_minus)
qed

lemma fl_counterexample_product: "fl (4586154991235943 / 1048576 * 1000000) = Fin (8747396452400099 / 2)"
proof -
  have r: "round_even (4586154991235943 / 1048576 * 1000000 / 2 powi (51 - 52)) = 8747396452400099"
    by (simp add: round_even_def Let_def power_int_minus)
  have "fl (4586154991235943 / 1048576 * 1000000) = Fin (of_int (round_even (4586154991235943 / 1048576 * 1000000 / 2 powi (51 - 52))) * 2 powi (51 - 52))"
    by (rule fl_normal(1)) simp_all
  then show ?thesis unfolding r by (simp add: power_int_minus)
qed

text \<open>
  Claim C1, as stated: \<open>algoToMicroAlgo (microAlgoToAlgo n) = n\<close> for every non-negative
  integer \<open>n\<close>. For \<open>n = 4373698226200049\<close> the quotient \<open>n / 1000000\<close> rounds to
  \<open>4586154991235943 / 2^20\<close>, the product of that with 1000000 rounds to
  \<open>4373698226200049.5\<close>, and \<open>Math.round\<close> returns \<open>4373698226200050\<close>.
\<close>

theorem roundtrip_counterexample:
  "algoToMicroAlgo (microAlgoToAlgo (Fin 4373698226200049)) = Inr (Fin 4373698226200050)
   \<and> algoToMicroAlgo (microAlgoToAlgo (Fin 4373698226200049)) \<noteq> Inr (Fin 4373698226200049)"
proof -
  have 1: "microAlgoToAlgo (Fin 4373698226200049) = Fin (4586154991235943 / 1048576)"
    using fl_counterexample_quotient by (simp add: microAlgoToAlgo_def MICROALGOS_PER_ALGO_def)
  have "algoToMicroAlgo (Fin (4586154991235943 / 1048576))
      = Inr (Math_round (fl (4586154991235943 / 1048576 * 1000000)))"
    by (simp only: algoToMicroAlgo_def MICROALGOS_PER_ALGO_def num_mul.simps)
  also have "\<dots> = Inr (Fin 4373698226200050)" unfolding fl_counterexample_product by simp
  finally show ?thesis unfolding 1 by simp
qed

text \<open>
  Claim C1, amended. For every non-negative integer \<open>n\<close> below \<open>2^51\<close> (2251799813685248
  microAlgos), \<open>algoToMicroAlgo (microAlgoToAlgo n) = n\<close>: the two roundings move the value by
  less than one half.
\<close>

theorem roundtrip_below_2_51:
  assumes "n < 2 ^ 51"
  shows "algoToMicroAlgo (microAlgoToAlgo (Fin (real n))) = Inr (Fin (real n))"
proof (cases "n = 0")
  case True
  then show ?thesis using roundtrip_zero by simp
next
  case False
  then show ?thesis using assms roundtrip_pos by simp
qed

theorem roundtrip_below_2_51_witness:
  "(1000000::nat) < 2 ^ 51 \<and> algoToMicroAlgo (microAlgoToAlgo (Fin 1000000)) = Inr (Fin 1000000)"
  using roundtrip_below_2_51 [of 1000000] by simp

text \<open>
  Claim C5, as stated: \<open>algoToMicroAlgo\<close> fails on every negative or non-finite input. It
  returns a value on each of them; for \<open>- 1\<close> it returns \<open>- 1000000\<close>.
\<close>

theorem algoToMicroAlgo_negative_counterexample:
  "algoToMicroAlgo (Fin (- 1)) = Inr (Fin (- 1000000))"
proof -
  have r: "round_even (1000000 / 2 powi (19 - 52)) = 8589934592000000"
    by (simp add: round_even_def Let_def power_int_minus)
  have "fl (- 1000000) = Fin (- (of_int (round_even (1000000 / 2 powi (19 - 52))) * 2 powi (19 - 52)))"
    by (rule fl_normal(2)) simp_all
  then have "fl (- 1000000) = Fin (- 1000000)" unfolding r by (simp add: power_int_minus)
  then show ?thesis by (simp add: algoToMicroAlgo_def MICROALGOS_PER_ALGO_def)
qed

text \<open>
  Claim C5, amended. \<open>algoToMicroAlgo\<close> never fails. On \<open>Infinity\<close>, \<open>-Infinity\<close> and \<open>NaN\<close> it
  returns its input. On every finite input \<open>a\<close>, negative or not, whose product with
  1000000 is below \<open>2^1023\<close> in magnitude, it returns an integer \<open>r\<close> that is the product
  rounded to the nearest integer up to the rounding of the product itself:
  \<open>\<bar>r - a * 1000000\<bar> \<le> 1/2 + \<bar>a\<bar> * 1000000 / 2^53\<close>.
\<close>

theorem algoToMicroAlgo_total:
  "(\<exists>v. algoToMicroAlgo algo = Inr v)
   \<and> algoToMicroAlgo PosInfinity = Inr PosInfinity
   \<and> algoToMicroAlgo NegInfinity = Inr NegInfinity
   \<and> algoToMicroAlgo NaN = Inr NaN
   \<and> (\<bar>a\<bar> * 1000000 < 2 powi 1023 \<longrightarrow>
       (\<exists>r::int. algoToMicroAlgo (Fin a) = Inr (Fin (of_int r))
          \<and> \<bar>of_int r - a * 1000000\<bar> \<le> 1 / 2 + \<bar>a\<bar> * 1000000 / 2 ^ 53))"
proof -
  have "\<bar>a\<bar> * 1000000 < 2 powi 1023 \<longrightarrow>
       (\<exists>r::int. algoToMicroAlgo (Fin a) = Inr (Fin (of_int r))
          \<and> \<bar>of_int r - a * 1000000\<bar> \<le> 1 / 2 + \<bar>a\<bar> * 1000000 / 2 ^ 53)"
  proof
    assume "\<bar>a\<bar> * 1000000 < 2 powi 1023"
    then have "\<bar>a * 1000000\<bar> < 2 powi 1023" by (simp add: abs_mult)
    from product_rounded [OF this]
    show "\<exists>r::int. algoToMicroAlgo (Fin a) = Inr (Fin (of_int r))
          \<and> \<bar>of_int r - a * 1000000\<bar> \<le> 1 / 2 + \<bar>a\<bar> * 1000000 / 2 ^ 53"
      by (simp add: algoToMicroAlgo_def MICROALGOS_PER_ALGO_def abs_mult)
  qed
  then show ?thesis by (simp add: algoToMicroAlgo_def MICROALGOS_PER_ALGO_def)
qed

theorem algoToMicroAlgo_total_witness:
  "\<bar>1 / 2 :: real\<bar> * 1000000 < 2 powi 1023
   \<and> algoToMicroAlgo (Fin (1 / 2)) = Inr (Fin 500000)"
proof -
  have h: "\<bar>1 / 2 :: real\<bar> * 1000000 < 2 powi 1023" by simp
  with algoToMicroAlgo_total [of "Fin (1 / 2)" "1 / 2"]
  obtain r :: int where r: "algoToMicroAlgo (Fin (1 / 2)) = Inr (Fin (of_int r))"
    "\<bar>of_int r - (1 / 2) * 1000000\<bar> \<le> 1 / 2 + \<bar>1 / 2 :: real\<bar> * 1000000 / 2 ^ 53"
    by blast
  have "\<bar>real_of_int r - 500000\<bar> < 1" using r(2) by simp
  then have "real_of_int (r - 500000) < 1" "- 1 < real_of_int (r - 500000)" by simp_all
  then have "r - 500000 < 1" "- 1 < r - 500000" by linarith+
  then have "r = 500000" by simp
  with r(1) h show ?thesis by simp
qed

subsection \<open>Address validation\<close>

lemma length_bytes_of_bits: "length (bytes_of_bits bs) = length bs div 8"
  by (induction bs rule: bytes_of_bits.induct) simp_all

lemma length_bits5: "length (concat (map bits5 vs)) = 5 * length vs"
  by (induction vs) (simp_all add: bits5_def)

lemma those_length: "those xs = Some ys \<Longrightarrow> length ys = length xs"
  by (induction xs arbitrary: ys) (auto split: option.splits)

lemma base32_decode_length:
  assumes "base32_decode s = Some decoded"
  shows "length decoded = 5 * length s div 8"
  using assms those_length [of "map base32_value s"]
  by (auto simp: base32_decode_def length_bytes_of_bits length_bits5 split: option.splits)

text \<open>
  Claim C6. \<open>isValidAddress\<close> returns a boolean for every string and never throws; it
  returns \<open>true\<close> exactly when the string has 58 characters, decodes (to 36 bytes), and its
  last 4 decoded bytes are the checksum of the 32 bytes before them. On the empty string
  it returns \<open>false\<close>.
\<close>

theorem isValidAddress_iff:
  "isValidAddress checksum s =
     Inr (length s = 58 \<and>
          (\<exists>decoded. base32_decode s = Some decoded \<and> length decoded = 36 \<and>
             drop 32 decoded = checksum (take 32 decoded)))
   \<and> isValidAddress checksum [] = Inr False"
proof -
  have "length s = 58 \<Longrightarrow> base32_decode s = Some decoded \<Longrightarrow> length decoded = 36" for decoded
    using base32_decode_length [of s decoded] by simp
  then show ?thesis
    by (auto simp: isValidAddress_def algosdk_isValidAddress_def decodeAddress_def Let_def
        split: option.splits)
qed

lemma base32_decode_zero: "base32_decode (replicate 58 CHR ''A'') = Some (replicate 36 0)"
  by code_simp

lemma base32_decode_corrupted:
  "base32_decode (replicate 56 CHR ''A'' @ ''EA'') = Some (replicate 35 0 @ [32])"
  by code_simp

lemma sample_checksum_zero:
  "drop 32 (replicate 36 0) = sample_checksum (take 32 (replicate 36 0))"
  by code_simp

lemma sample_checksum_corrupted:
  "drop 32 (replicate 35 0 @ [32]) \<noteq> sample_checksum (take 32 (replicate 35 0 @ [32]))"
  by code_simp

theorem isValidAddress_iff_witness:
  "isValidAddress sample_checksum (replicate 58 CHR ''A'') = Inr True
   \<and> isValidAddress sample_checksum (replicate 56 CHR ''A'' @ ''EA'') = Inr False
   \<and> isValidAddress sample_checksum ''invalid-address'' = Inr False
   \<and> isValidAddress sample_checksum [] = Inr False"
  using isValidAddress_iff [of sample_checksum "replicate 58 CHR ''A''"]
    isValidAddress_iff [of sample_checksum "replicate 56 CHR ''A'' @ ''EA''"]
    isValidAddress_iff [of sample_checksum "''invalid-address''"]
    sample_checksum_zero sample_checksum_corrupted
  by (simp add: base32_decode_zero base32_decode_corrupted)

subsection \<open>Signature verification\<close>

text \<open>
  Claim C9. Whatever \<open>algosdk.verifyBytes\<close> does on the given data, signature and address,
  \<open>verifySignature\<close> returns a boolean and does not throw: \<open>false\<close> when the call throws,
  and the result of the call otherwise.
\<close>

theorem verifySignature_total:
  "(\<exists>b. verifySignature verifyBytes d s a = Inr b)
   \<and> (\<forall>e. verifyBytes d s a = Inl e \<longrightarrow> verifySignature verifyBytes d s a = Inr False)
   \<and> (\<forall>b. verifyBytes d s a = Inr b \<longrightarrow> verifySignature verifyBytes d s a = Inr b)"
  by (cases "verifyBytes d s a") (auto simp: verifySignature_def)

theorem verifySignature_total_witness:
  "verifySignature (\<lambda>d s a. if length a = 58 then Inr (d = s) else Inl (Error ''address seems to be malformed''))
     [1, 2] [3] ''not an address'' = Inr False
   \<and> verifySignature (\<lambda>d s a. if length a = 58 then Inr (d = s) else Inl (Error ''address seems to be malformed''))
     [1, 2] [1, 2] (replicate 58 CHR ''A'') = Inr True"
  using
    verifySignature_total [of "\<lambda>d s a. if length a = 58 then Inr (d = s) else Inl (Error ''address seems to be malformed'')"
      "[1, 2]" "[3]" "''not an address''"]
    verifySignature_total [of "\<lambda>d s a. if length a = 58 then Inr (d = s) else Inl (Error ''address seems to be malformed'')"
      "[1, 2]" "[1, 2]" "replicate 58 CHR ''A''"]
  by auto

subsection \<open>Batch execution\<close>

lemma execute_items_continue:
  assumes "continueOnFail this"
  shows "execute_items this is acc st = (Inr (acc @ concat (map (item_output this) is)), st @ is)"
proof (induction "is" arbitrary: acc st)
  case Nil
  then show ?case by simp
next
  case (Cons i rest)
  show ?case
  proof (cases "resource_of this i \<in> set resources")
    case True
    obtain rd f where b: "try_body this (resource_of this i) i = (rd, f)" by (cases "try_body this (resource_of this i) i")
    show ?thesis using True b assms Cons.IH
      by (cases f) (simp_all add: executeOperation_def item_output_def item_records_def item_failure_def error_record_def Let_def)
  next
    case False
    then show ?thesis using assms Cons.IH
      by (simp add: item_output_def item_records_def item_failure_def error_record_def Let_def)
  qed
qed

lemma execute_items_no_failure:
  assumes "\<forall>i\<in>set is. item_failure this i = None"
  shows "execute_items this is acc st = (Inr (acc @ concat (map (item_records this) is)), st @ is)"
  using assms
proof (induction "is" arbitrary: acc st)
  case Nil
  then show ?case by simp
next
  case (Cons i rest)
  from Cons.prems have f: "item_failure this i = None" and r: "\<forall>j\<in>set rest. item_failure this j = None" by auto
  from f have known: "resource_of this i \<in> set resources" by (auto simp: item_failure_def split: if_splits)
  obtain rd where b: "try_body this (resource_of this i) i = (rd, None)"
    using f known by (cases "try_body this (resource_of this i) i") (auto simp: item_failure_def)
  show ?case using known b Cons.IH [OF r]
    by (simp add: executeOperation_def item_records_def Let_def)
qed

lemma execute_items_abort:
  assumes "\<not> continueOnFail this" "\<forall>i\<in>set pre. item_failure this i = None" "item_failure this k = Some m"
  shows "execute_items this (pre @ k # post) acc st = (Inl m, st @ pre @ [k])"
  using assms(2)
proof (induction pre arbitrary: acc st)
  case Nil
  show ?case
  proof (cases "resource_of this k \<in> set resources")
    case True
    obtain rd where b: "try_body this (resource_of this k) k = (rd, Some m)"
      using assms(3) True by (cases "try_body this (resource_of this k) k") (auto simp: item_failure_def)
    show ?thesis using True b assms(1) by (simp add: executeOperation_def Let_def)
  next
    case False
    then show ?thesis using assms(1,3) by (auto simp: item_failure_def Let_def)
  qed
next
  case (Cons i rest)
  from Cons.prems have f: "item_failure this i = None" and r: "\<forall>j\<in>set rest. item_failure this j = None" by auto
  from f have known: "resource_of this i \<in> set resources" by (auto simp: item_failure_def split: if_splits)
  obtain rd where b: "try_body this (resource_of this i) i = (rd, None)"
    using f known by (cases "try_body this (resource_of this i) i") (auto simp: item_failure_def)
  show ?case using known b Cons.IH [OF r]
    by (simp add: executeOperation_def Let_def)
qed

text \<open>
  Claim C7. With continue-on-fail enabled, every item of the batch is processed and the
  output is, item by item, the records the handler pushed followed, for an item that
  failed, by one record whose \<open>json\<close> is the single field \<open>error\<close> with the message and whose
  \<open>pairedItem\<close> is the index of the item. With continue-on-fail disabled, the first item
  that fails ends the batch: its error is the result, and the items after it are not
  begun. A failure is an error thrown in the handler or an unknown resource.
\<close>

theorem execute_failure_policy:
  "(continueOnFail this \<longrightarrow>
      execute this n = (Inr (concat (map (item_output this) [0..<n])), [0..<n]))
   \<and> (\<not> continueOnFail this \<and> k < n \<and> item_failure this k = Some m
        \<and> (\<forall>j<k. item_failure this j = None) \<longrightarrow>
      execute this n = (Inl m, [0..<Suc k]))
   \<and> (\<not> continueOnFail this \<and> (\<forall>j<n. item_failure this j = None) \<longrightarrow>
      execute this n = (Inr (concat (map (item_records this) [0..<n])), [0..<n]))"
proof (intro conjI impI)
  assume "continueOnFail this"
  then show "execute this n = (Inr (concat (map (item_output this) [0..<n])), [0..<n])"
    using execute_items_continue [of this "[0..<n]" "[]" "[]"] by (simp add: execute_def)
next
  assume a: "\<not> continueOnFail this \<and> k < n \<and> item_failure this k = Some m
        \<and> (\<forall>j<k. item_failure this j = None)"
  then have s: "[0..<n] = [0..<k] @ k # [Suc k..<n]"
    by (metis upt_conv_Cons upt_add_eq_append le_add_diff_inverse less_imp_le_nat zero_le)
  have "execute_items this ([0..<k] @ k # [Suc k..<n]) [] [] = (Inl m, [] @ [0..<k] @ [k])"
    using a by (intro execute_items_abort) auto
  then show "execute this n = (Inl m, [0..<Suc k])" by (simp add: execute_def s)
next
  assume "\<not> continueOnFail this \<and> (\<forall>j<n. item_failure this j = None)"
  then show "execute this n = (Inr (concat (map (item_records this) [0..<n])), [0..<n])"
    using execute_items_no_failure [of "[0..<n]" this "[]" "[]"] by (simp add: execute_def)
qed

lemma sample_failures:
  "item_failure (sample_host cof) 0 = None"
  "item_failure (sample_host cof) 1 = Some ''Unknown resource: wallet''"
  "item_failure (sample_host cof) 2 = Some ''Invalid recipient address''"
  "item_failure (sample_host cof) 3 = None"
  "item_failure (sample_host cof) (Suc 0) = Some ''Unknown resource: wallet''"
  by (simp_all add: item_failure_def sample_host_def resources_def)

lemma sample_records:
  "item_records (sample_host cof) 0 = [\<lparr>json = [(''success'', ''true'')], pairedItem = Some 0\<rparr>]"
  "item_records (sample_host cof) 1 = []"
  "item_records (sample_host cof) 2 = []"
  "item_records (sample_host cof) 3 = [\<lparr>json = [(''success'', ''true'')], pairedItem = Some 3\<rparr>]"
  "item_records (sample_host cof) (Suc 0) = []"
  by (simp_all add: item_records_def sample_host_def resources_def)

lemma upt4: "[0..<4] = [0, 1, 2, 3]" "[0..<Suc 1] = [0, 1]" "[0..<1] = [0]"
  by (simp_all add: upt_rec)

theorem execute_failure_policy_witness:
  "execute (sample_host True) 4 =
     (Inr [\<lparr>json = [(''success'', ''true'')], pairedItem = Some 0\<rparr>,
           \<lparr>json = [(''error'', ''Unknown resource: wallet'')], pairedItem = Some 1\<rparr>,
           \<lparr>json = [(''error'', ''Invalid recipient address'')], pairedItem = Some 2\<rparr>,
           \<lparr>json = [(''success'', ''true'')], pairedItem = Some 3\<rparr>], [0, 1, 2, 3])
   \<and> execute (sample_host False) 4 = (Inl ''Unknown resource: wallet'', [0, 1])
   \<and> execute (sample_host False) 1 =
       (Inr [\<lparr>json = [(''success'', ''true'')], pairedItem = Some 0\<rparr>], [0])"
proof -
  have c: "continueOnFail (sample_host True)" "\<not> continueOnFail (sample_host False)"
    by (simp_all add: sample_host_def)
  have 1: "execute (sample_host True) 4
      = (Inr (concat (map (item_output (sample_host True)) [0..<4])), [0..<4])"
    using execute_failure_policy [of "sample_host True" 4] c(1) by blast
  have "\<forall>j<1. item_failure (sample_host False) j = None" by (simp add: sample_failures)
  then have 2: "execute (sample_host False) 4 = (Inl ''Unknown resource: wallet'', [0..<Suc 1])"
    using execute_failure_policy [of "sample_host False" 4 1 "''Unknown resource: wallet''"] c(2)
      sample_failures(2) [of False] by simp
  have "\<forall>j<1. item_failure (sample_host False) j = None" by (simp add: sample_failures)
  then have 3: "execute (sample_host False) 1
      = (Inr (concat (map (item_records (sample_host False)) [0..<1])), [0..<1])"
    using execute_failure_policy [of "sample_host False" 1] c(2) by blast
  show ?thesis unfolding 1 2 3 upt4
    by (simp add: item_output_def sample_failures sample_records)
qed

subsection \<open>Polling trigger\<close>

text \<open>
  The event \<open>newBlock\<close> stores the reported round only when it is above the cursor, and
  \<open>balanceChange\<close> does not touch the cursor.
\<close>

lemma poll_newBlock_monotone:
  assumes "event ps = ''newBlock''"
  shows "cursor w \<le> cursor (fst (poll ps r w))"
  using assms by (auto simp: poll_def poll_newBlock_def cursor_def split: sum.splits)

lemma poll_balanceChange_cursor:
  assumes "event ps = ''balanceChange''"
  shows "cursor (fst (poll ps r w)) = cursor w"
  using assms by (auto simp: poll_def poll_balanceChange_def cursor_def Let_def split: sum.splits)

text \<open>
  The six events that search the indexer store the reported round whatever it is, once
  the search has returned (or was skipped because the cursor was 0).
\<close>

lemma poll_search_cursor:
  "cursor (fst (poll_search r w ev q keep)) =
     (case status_last_round r of
        Inl e \<Rightarrow> cursor w
      | Inr currentRound \<Rightarrow>
          if cursor w > 0 then
            (case searchForTransactions r (q\<lparr>q_minRound := cursor w + 1, q_maxRound := currentRound\<rparr>) of
               Inl e \<Rightarrow> cursor w | Inr txs \<Rightarrow> currentRound)
          else currentRound)"
  by (auto simp: poll_search_def cursor_def split: sum.splits)


text \<open>
  The next poll then searches from round 91 and emits again the transaction of round 100.
\<close>

lemma poll_reprocesses_round:
  "poll watch_address current_node \<lparr>lastRound = Some 90, lastBalance = None\<rparr>
     = (\<lparr>lastRound = Some 101, lastBalance = None\<rparr>,
        Some [TxItem ''transactionForAddress'' tx_of_round_100])"
  by (simp add: poll_def poll_search_def watch_address_def current_node_def cursor_def no_query_def)

subsection \<open>Algod client configuration\<close>

lemma algonode_fallback:
  "network \<notin> {Some ''mainnet'', Some ''testnet'', Some ''betanet''} \<Longrightarrow>
   network_or_mainnet ALGONODE_NETWORKS network = map_of ALGONODE_NETWORKS ''mainnet''"
  by (cases network) (simp_all add: network_or_mainnet_def ALGONODE_NETWORKS_def)

lemma purestake_fallback:
  "network \<notin> {Some ''mainnet'', Some ''testnet'', Some ''betanet''} \<Longrightarrow>
   network_or_mainnet PURESTAKE_NETWORKS network = map_of PURESTAKE_NETWORKS ''mainnet''"
  by (cases network) (simp_all add: network_or_mainnet_def PURESTAKE_NETWORKS_def)

lemma network_or_mainnet_defined:
  "\<exists>c. network_or_mainnet ALGONODE_NETWORKS network = Some c"
  "\<exists>c. network_or_mainnet PURESTAKE_NETWORKS network = Some c"
  by (cases network; simp add: network_or_mainnet_def ALGONODE_NETWORKS_def PURESTAKE_NETWORKS_def
        split: option.split)+

lemma getAlgodConfig_fallback_algonode:
  assumes "credentials ''apiProvider'' = Some ''algonode''"
    and "credentials ''network'' \<notin> {Some ''mainnet'', Some ''testnet'', Some ''betanet''}"
  shows "getAlgodConfig credentials = Inr \<lparr>url = ''https://mainnet-api.algonode.cloud'', token = Token []\<rparr>"
  using assms(1) algonode_fallback [OF assms(2)]
  by (simp add: getAlgodConfig_def Let_def) (simp add: ALGONODE_NETWORKS_def)

lemma getAlgodConfig_fallback_purestake:
  assumes "credentials ''apiProvider'' = Some ''purestake''"
    and "credentials ''network'' \<notin> {Some ''mainnet'', Some ''testnet'', Some ''betanet''}"
  shows "getAlgodConfig credentials = Inr \<lparr>url = ''https://mainnet-algorand.api.purestake.io/ps2'',
        token = ApiKeyHeader (credentials ''purestakeApiKey'')\<rparr>"
  using assms(1) purestake_fallback [OF assms(2)]
  by (simp add: getAlgodConfig_def Let_def) (simp add: PURESTAKE_NETWORKS_def)

lemma getAlgodConfig_fallback_provider:
  assumes "credentials ''apiProvider'' \<notin> {Some ''algonode'', Some ''purestake'', Some ''custom''}"
  shows "getAlgodConfig credentials = Inr \<lparr>url = ''https://mainnet-api.algonode.cloud'', token = Token []\<rparr>"
  using assms by (simp add: getAlgodConfig_def Let_def) (simp add: ALGONODE_NETWORKS_def)

lemma getAlgodConfig_sandbox_token:
  assumes "credentials ''apiProvider'' = Some ''custom''" "credentials ''algodUrl'' = Some u"
    "includes_str u ''localhost''" "credentials ''algodToken'' \<in> {None, Some []}"
  shows "getAlgodConfig credentials = Inr \<lparr>url = u, token = Token (replicate 64 CHR ''a'')\<rparr>"
proof -
  have "u \<noteq> []" using assms(3) by (auto simp: includes_str_def)
  then show ?thesis using assms
    by (auto simp: getAlgodConfig_def Let_def default_sandbox_token_def)
qed

text \<open>The custom branch of the sibling \<open>getIndexerConfig\<close> returns on the same credentials.\<close>

lemma getIndexerConfig_custom_without_url: "getIndexerConfig_custom [''apiProvider'' \<mapsto> ''custom''] = Inr (None, [])"
  by (simp add: getIndexerConfig_custom_def truthy_str_def bind_result_def)

text \<open>
  Claim C10: \<open>getAlgodConfig\<close> returns a configuration for every credentials record. With
  the provider \<open>custom\<close> and no \<open>algodUrl\<close> field it throws a \<open>TypeError\<close>
  (\<open>url.includes\<close> on \<open>undefined\<close>).
\<close>

theorem getAlgodConfig_custom_without_url: "getAlgodConfig [''apiProvider'' \<mapsto> ''custom''] = Inl TypeError"
  by (simp add: getAlgodConfig_def)

end
